theory Spec2Isabelle
  imports
    Main
    "HOL-Library.Multiset"
    "HOL-Library.Sublist"
    "HOL-Library.Char_ord"
    "HOL-Library.List_Lexorder"
begin

section \<open>Strings as the window code uses them\<close>

text \<open>
  Python strings are modelled as \<^typ>\<open>string\<close> (lists of 8-bit characters, ordered
  lexicographically by character code, as Python orders \<^verbatim>\<open>str\<close>). \<^verbatim>\<open>str.lower\<close> is modelled
  on the ASCII letters; every other character is left as it is.
\<close>

definition lower_char :: "char \<Rightarrow> char" where
  "lower_char c =
     (if CHR ''A'' \<le> c \<and> c \<le> CHR ''Z'' then char_of (of_char c + (32::nat)) else c)"

definition lower :: "string \<Rightarrow> string" where
  "lower s = map lower_char s"

text \<open>Python's \<^verbatim>\<open>text in s\<close> on strings: \<^verbatim>\<open>text\<close> occurs in \<^verbatim>\<open>s\<close> as a contiguous run.\<close>

definition str_in :: "string \<Rightarrow> string \<Rightarrow> bool" where
  "str_in text s = sublist text s"

text \<open>\<^verbatim>\<open>str(n)\<close> of a Python integer: its decimal digits, with a minus sign when negative.\<close>

definition digit_char :: "nat \<Rightarrow> char" where
  "digit_char d = char_of (48 + d)"

fun str_nat :: "nat \<Rightarrow> string" where
  "str_nat n = (if n < 10 then [digit_char n] else str_nat (n div 10) @ [digit_char (n mod 10)])"

declare str_nat.simps [simp del]

definition str_int :: "int \<Rightarrow> string" where
  "str_int i = (if i < 0 then CHR ''-'' # str_nat (nat (- i)) else str_nat (nat i))"

text \<open>\<^verbatim>\<open>str(x)\<close> of an optional timestamp: \<^verbatim>\<open>str(None)\<close> is the text \<^verbatim>\<open>None\<close>.\<close>

definition str_opt_int :: "int option \<Rightarrow> string" where
  "str_opt_int x = (case x of None \<Rightarrow> ''None'' | Some i \<Rightarrow> str_int i)"

text \<open>
  \<^verbatim>\<open>s.strip(chars)\<close>: the characters of \<^verbatim>\<open>chars\<close> are removed from both ends of \<^verbatim>\<open>s\<close>.
\<close>

definition strip :: "string \<Rightarrow> string \<Rightarrow> string" where
  "strip chars s =
     rev (dropWhile (\<lambda>c. c \<in> set chars) (rev (dropWhile (\<lambda>c. c \<in> set chars) s)))"

section \<open>Games\<close>

text \<open>
  Modelled from the spec: the \<^verbatim>\<open>Game\<close> class (\<^verbatim>\<open>src/game.py\<close>) is not among the sources.
  The record has the fields that \<^verbatim>\<open>window.py\<close> reads or writes, with the types the
  specification's data model gives them: \<^verbatim>\<open>developer\<close> and \<^verbatim>\<open>last_played\<close> are
  optional, \<^verbatim>\<open>added\<close> is a timestamp.
\<close>

record game =
  name :: string
  developer :: "string option"
  added :: int
  last_played :: "int option"
  hidden :: bool
  removed :: bool
  blacklisted :: bool
  filtered :: bool
  loading :: bool

text \<open>
  Modelled from the spec: \<^verbatim>\<open>Game.toggle_hidden\<close> is not among the sources. The
  specification gives the method a boolean argument and says that the undo of a hide
  action, which calls \<^verbatim>\<open>toggle_hidden(False)\<close>, restores \<^verbatim>\<open>hidden = false\<close>: the field is
  set to the argument.
\<close>

definition toggle_hidden :: "bool \<Rightarrow> game \<Rightarrow> game" where
  "toggle_hidden b g = g\<lparr>hidden := b\<rparr>"

section \<open>The sort comparator\<close>

text \<open>
  \<^verbatim>\<open>sort_func\<close> first chooses the attribute \<^verbatim>\<open>var\<close> and the flag \<^verbatim>\<open>order\<close> from
  \<^verbatim>\<open>sort_state\<close>, then falls back to \<^verbatim>\<open>("name", True)\<close> when the chosen attribute is not
  the name and both items give the same text for it.
\<close>

datatype sort_var = VName | VAdded | VLastPlayed

definition sort_params :: "string \<Rightarrow> sort_var \<times> bool" where
  "sort_params sort_state =
     (if sort_state = ''newest'' \<or> sort_state = ''oldest''
        then (VAdded, sort_state = ''newest'')
      else if sort_state = ''last_played'' then (VLastPlayed, True)
      else if sort_state = ''a-z'' then (VName, False)
      else (VName, True))"

text \<open>\<^verbatim>\<open>get_value\<close>: \<^verbatim>\<open>str(getattr(game, var)).lower()\<close>.\<close>

fun get_value :: "sort_var \<Rightarrow> game \<Rightarrow> string" where
  "get_value VName g = lower (name g)"
| "get_value VAdded g = lower (str_int (added g))"
| "get_value VLastPlayed g = lower (str_opt_int (last_played g))"

text \<open>\<^verbatim>\<open>((a > b) ^ order) * 2 - 1\<close> on Python booleans and integers.\<close>

definition xor_sign :: "bool \<Rightarrow> bool \<Rightarrow> int" where
  "xor_sign gt order = (if gt \<noteq> order then 1 else 0) * 2 - 1"

definition sort_func :: "string \<Rightarrow> game \<Rightarrow> game \<Rightarrow> int" where
  "sort_func sort_state g1 g2 =
     (let (var, order) = sort_params sort_state;
          (var, order) =
            (if var \<noteq> VName \<and> get_value var g1 = get_value var g2
               then (VName, True) else (var, order))
      in xor_sign (get_value var g1 > get_value var g2) order)"

section \<open>The window state\<close>

text \<open>The three pages of the view stack, in the order of \<^verbatim>\<open>levels\<close> in \<^verbatim>\<open>navigate\<close>.\<close>

datatype page = LibraryView | HiddenLibraryView | DetailsView

datatype transition = NoTransition | UnderRight | OverLeft

text \<open>
  The widgets that the methods compare, place in a bin or focus. \<^verbatim>\<open>SearchEntryText\<close> and
  \<^verbatim>\<open>HiddenSearchEntryText\<close> are the text children inside the two search entries: the
  toolkit gives the keyboard focus to them when an entry is focused.
\<close>

datatype widget =
    NoticeEmpty | NoticeNoResults | Scrolledwindow
  | HiddenNoticeEmpty | HiddenNoticeNoResults | HiddenScrolledwindow
  | SearchEntry | SearchEntryText
  | HiddenSearchEntry | HiddenSearchEntryText
  | DetailsViewPlayButton
  | OtherWidget nat

text \<open>
  Calls into collaborators whose code is outside \<^verbatim>\<open>window.py\<close> are recorded in a trace,
  most recent first.
\<close>

datatype effect =
    ToastDismiss nat
  | UndoImport
  | GameSave nat
  | GameUpdate nat
  | PrimaryMenuPopup
  | HiddenPrimaryMenuPopup
  | WindowClose

datatype py_error = KeyError

record importer =
  imported_game_ids :: "string list"
  removed_game_ids :: "string list"

text \<open>
  A game object is identified by its position in \<^verbatim>\<open>shared.store\<close>. The dictionary
  \<^verbatim>\<open>toasts\<close> keeps its insertion order, so it is an association list from
  \<^verbatim>\<open>(game, undo)\<close> keys to toasts, oldest first.
\<close>

type_synonym toast_key = "nat \<times> string option"

record window =
  visible_child :: page
  transition_type :: transition
  previous_page :: page
  show_hidden_enabled :: bool
  sort_state :: string
  sort_action_state :: string
  sort_mode_setting :: string
  search_text :: string
  hidden_search_text :: string
  search_mode :: bool
  hidden_search_mode :: bool
  focus :: "widget option"
  store :: "game list"
  library_children :: "nat list"
  hidden_library_children :: "nat list"
  library_bin_child :: widget
  hidden_library_bin_child :: widget
  toasts :: "(toast_key \<times> nat) list"
  shared_importer :: "importer option"
  active_game :: "nat option"
  details_view_title :: string
  details_view_developer :: string
  details_view_developer_visible :: bool
  details_view_hide_icon :: string
  effects :: "effect list"

subsection \<open>Toolkit operations\<close>

text \<open>
  \<^verbatim>\<open>entry.get_focus_child()\<close>: the child of the entry that holds the focus, or \<^verbatim>\<open>None\<close>.
\<close>

definition get_focus_child :: "widget \<Rightarrow> window \<Rightarrow> widget option" where
  "get_focus_child entry w =
     (if entry = SearchEntry \<and> focus w = Some SearchEntryText then Some SearchEntryText
      else if entry = HiddenSearchEntry \<and> focus w = Some HiddenSearchEntryText
        then Some HiddenSearchEntryText
      else None)"

text \<open>\<^verbatim>\<open>set_focus(widget)\<close>: a search entry hands the focus to its text child.\<close>

definition set_focus :: "window \<Rightarrow> widget \<Rightarrow> window" where
  "set_focus w x =
     w\<lparr>focus := Some (if x = SearchEntry then SearchEntryText
                      else if x = HiddenSearchEntry then HiddenSearchEntryText
                      else x)\<rparr>"

text \<open>
  \<^verbatim>\<open>invalidate_sort\<close> makes the list widget order its children again with the sort
  function; it is modelled as an insertion sort driven by the comparator.
\<close>

fun insert_by :: "('a \<Rightarrow> 'a \<Rightarrow> int) \<Rightarrow> 'a \<Rightarrow> 'a list \<Rightarrow> 'a list" where
  "insert_by cmp x [] = [x]"
| "insert_by cmp x (y # ys) = (if cmp x y \<le> 0 then x # y # ys else y # insert_by cmp x ys)"

definition sort_by :: "('a \<Rightarrow> 'a \<Rightarrow> int) \<Rightarrow> 'a list \<Rightarrow> 'a list" where
  "sort_by cmp xs = foldr (insert_by cmp) xs []"

definition child_sort_func :: "window \<Rightarrow> nat \<Rightarrow> nat \<Rightarrow> int" where
  "child_sort_func w child1 child2 = sort_func (sort_state w) (store w ! child1) (store w ! child2)"

section \<open>Placeholder selection\<close>

fun set_library_child_loop :: "game list \<Rightarrow> widget \<times> widget \<Rightarrow> widget \<times> widget" where
  "set_library_child_loop [] (child, hidden_child) = (child, hidden_child)"
| "set_library_child_loop (g # gs) (child, hidden_child) =
     (if removed g \<or> blacklisted g then set_library_child_loop gs (child, hidden_child)
      else if hidden g then
        (if filtered g \<and> hidden_child \<noteq> HiddenScrolledwindow
           then set_library_child_loop gs (child, HiddenNoticeNoResults)
         else set_library_child_loop gs (child, HiddenScrolledwindow))
      else
        (if filtered g \<and> child \<noteq> Scrolledwindow
           then set_library_child_loop gs (NoticeNoResults, hidden_child)
         else set_library_child_loop gs (Scrolledwindow, hidden_child)))"

definition set_library_child :: "window \<Rightarrow> window" where
  "set_library_child w =
     (let (child, hidden_child) = set_library_child_loop (store w) (NoticeEmpty, HiddenNoticeEmpty)
      in w\<lparr>library_bin_child := child, hidden_library_bin_child := hidden_child\<rparr>)"

section \<open>The filter predicate\<close>

text \<open>Python truthiness of \<^verbatim>\<open>game.developer\<close>: present and not the empty string.\<close>

definition developer_matches :: "string \<Rightarrow> game \<Rightarrow> bool" where
  "developer_matches text g =
     (case developer g of
        None \<Rightarrow> False
      | Some d \<Rightarrow> (if d \<noteq> [] then str_in text (lower d) else False))"

definition active_search_text :: "window \<Rightarrow> string" where
  "active_search_text w =
     (if visible_child w = HiddenLibraryView then hidden_search_text w else search_text w)"

text \<open>The value assigned to \<^verbatim>\<open>filtered\<close>, for the lowercased text of the entry.\<close>

definition game_filtered :: "string \<Rightarrow> game \<Rightarrow> bool" where
  "game_filtered text g =
     (text \<noteq> [] \<and> \<not> (str_in text (lower (name g)) \<or> developer_matches text g))"

definition filter_func :: "window \<Rightarrow> nat \<Rightarrow> bool \<times> window" where
  "filter_func w child =
     (let game = store w ! child;
          text = lower (active_search_text w);
          filt = game_filtered text game;
          w' = w\<lparr>store := (store w)[child := game\<lparr>filtered := filt\<rparr>]\<rparr>
      in (\<not> filt, set_library_child w'))"

text \<open>\<^verbatim>\<open>invalidate_filter\<close> makes the list widget call the filter function on each child.\<close>

definition invalidate_filter :: "window \<Rightarrow> nat list \<Rightarrow> window" where
  "invalidate_filter w children = fold (\<lambda>child w'. snd (filter_func w' child)) children w"

definition search_changed :: "window \<Rightarrow> bool \<Rightarrow> window" where
  "search_changed w hid =
     invalidate_filter w (if hid then hidden_library_children w else library_children w)"

section \<open>Navigation\<close>

text \<open>\<^verbatim>\<open>levels.index(page)\<close>.\<close>

fun level_index :: "page \<Rightarrow> int" where
  "level_index LibraryView = 0"
| "level_index HiddenLibraryView = 1"
| "level_index DetailsView = 2"

definition navigate :: "window \<Rightarrow> page \<Rightarrow> window" where
  "navigate w next_page =
     (let w1 = w\<lparr>transition_type :=
                   (if level_index (visible_child w) - level_index next_page > 0
                      then UnderRight else OverLeft)\<rparr>;
          w2 = (if next_page = LibraryView \<or> next_page = HiddenLibraryView
                  then w1\<lparr>previous_page := next_page,
                          show_hidden_enabled := (next_page = LibraryView)\<rparr>
                else w1)
      in w2\<lparr>visible_child := next_page\<rparr>)"

definition on_go_to_parent_action :: "window \<Rightarrow> window" where
  "on_go_to_parent_action w =
     (if visible_child w = DetailsView
        then navigate w (if previous_page w = HiddenLibraryView
                           then HiddenLibraryView else LibraryView)
      else w)"

definition on_go_back_action :: "window \<Rightarrow> window" where
  "on_go_back_action w =
     (if visible_child w = HiddenLibraryView then navigate w LibraryView
      else if visible_child w = DetailsView then on_go_to_parent_action w
      else w)"

definition on_go_home_action :: "window \<Rightarrow> window" where
  "on_go_home_action w = navigate w LibraryView"

definition on_show_hidden_action :: "window \<Rightarrow> window" where
  "on_show_hidden_action w = navigate w HiddenLibraryView"

section \<open>The details view\<close>

definition set_active_game :: "window \<Rightarrow> nat \<Rightarrow> window" where
  "set_active_game w g = w\<lparr>active_game := Some g\<rparr>"

text \<open>
  \<^verbatim>\<open>show_details_view\<close>: the labels that depend only on the game are kept; the cover
  pictures, the relative dates and the opacity come from collaborators outside
  \<^verbatim>\<open>window.py\<close> and are read by no other method, so they are left out.
\<close>

definition show_details_view :: "window \<Rightarrow> nat \<Rightarrow> window" where
  "show_details_view w g =
     (let game = store w ! g;
          w1 = w\<lparr>active_game := Some g,
                 details_view_developer := (case developer game of None \<Rightarrow> [] | Some d \<Rightarrow> d),
                 details_view_developer_visible :=
                   (case developer game of None \<Rightarrow> False | Some d \<Rightarrow> d \<noteq> []),
                 details_view_hide_icon :=
                   (if hidden game then ''view-reveal-symbolic'' else ''view-conceal-symbolic''),
                 details_view_title := name game\<rparr>
      in if visible_child w1 \<noteq> DetailsView
           then set_focus (navigate w1 DetailsView) DetailsViewPlayButton
         else w1)"

text \<open>
  \<^verbatim>\<open>show_details_view_search\<close>: the \<^verbatim>\<open>while\<close> loop walks the children of the list by
  index until there is none left, so it is a recursion over the list of children.
\<close>

fun show_details_view_search_loop :: "window \<Rightarrow> nat list \<Rightarrow> window" where
  "show_details_view_search_loop w [] = w"
| "show_details_view_search_loop w (child # rest) =
     (let (keep, w') = filter_func w child
      in if keep then show_details_view w' child
         else show_details_view_search_loop w' rest)"

definition show_details_view_search :: "window \<Rightarrow> widget \<Rightarrow> window" where
  "show_details_view_search w x =
     show_details_view_search_loop w
       (if x = HiddenSearchEntry then hidden_library_children w else library_children w)"

section \<open>Sorting, search and escape\<close>

text \<open>
  \<^verbatim>\<open>on_sort_action\<close>: the argument is the text \<^verbatim>\<open>str(state)\<close> of the variant it is
  called with.
\<close>

definition on_sort_action :: "window \<Rightarrow> string \<Rightarrow> window" where
  "on_sort_action w state_text =
     (let w1 = w\<lparr>sort_action_state := state_text\<rparr>;
          w2 = w1\<lparr>sort_state := strip [CHR 0x27] state_text\<rparr>;
          w3 = w2\<lparr>library_children := sort_by (child_sort_func w2) (library_children w2)\<rparr>
      in w3\<lparr>sort_mode_setting := sort_state w3\<rparr>)"

definition on_toggle_search_action :: "window \<Rightarrow> window" where
  "on_toggle_search_action w =
     (if visible_child w = LibraryView then
        (let mode = search_mode w;
             w1 = w\<lparr>search_mode := \<not> mode\<rparr>;
             w2 = (if \<not> mode then set_focus w1 SearchEntry else w1)
         in w2\<lparr>search_text := []\<rparr>)
      else if visible_child w = HiddenLibraryView then
        (let mode = hidden_search_mode w;
             w1 = w\<lparr>hidden_search_mode := \<not> mode\<rparr>;
             w2 = (if \<not> mode then set_focus w1 HiddenSearchEntry else w1)
         in w2\<lparr>hidden_search_text := []\<rparr>)
      else w)"

text \<open>
  The condition of \<^verbatim>\<open>on_escape_action\<close> is
  \<^verbatim>\<open>(get_focus() == search_entry.get_focus_child()) or hidden_search_entry.get_focus_child()\<close>:
  the comparison binds tighter than \<^verbatim>\<open>or\<close>, and the second operand is tested for
  truthiness.
\<close>

definition escape_condition :: "window \<Rightarrow> bool" where
  "escape_condition w =
     (focus w = get_focus_child SearchEntry w \<or> get_focus_child HiddenSearchEntry w \<noteq> None)"

definition on_escape_action :: "window \<Rightarrow> window" where
  "on_escape_action w =
     (if escape_condition w then on_toggle_search_action w else on_go_back_action w)"

section \<open>Undo\<close>

text \<open>\<^verbatim>\<open>shared.importer and (imported_game_ids or removed_game_ids)\<close>.\<close>

definition importer_pending :: "window \<Rightarrow> bool" where
  "importer_pending w =
     (case shared_importer w of
        None \<Rightarrow> False
      | Some imp \<Rightarrow> imported_game_ids imp \<noteq> [] \<or> removed_game_ids imp \<noteq> [])"

text \<open>
  The part of \<^verbatim>\<open>on_undo_action\<close> under \<^verbatim>\<open>if game:\<close>. The game is changed first; the
  lookup \<^verbatim>\<open>self.toasts[(game, undo)]\<close> comes after it and raises \<^verbatim>\<open>KeyError\<close> for a key
  that is not in the dictionary. An exception leaves the changes made before it in place,
  so the result is the state reached together with the exception, if any.
\<close>

definition undo_game :: "window \<Rightarrow> nat \<Rightarrow> string option \<Rightarrow> window \<times> py_error option" where
  "undo_game w g undo =
     (let w1 =
            (if undo = Some ''hide''
               then w\<lparr>store := (store w)[g := toggle_hidden False (store w ! g)]\<rparr>
             else if undo = Some ''remove''
               then w\<lparr>store := (store w)[g := (store w ! g)\<lparr>removed := False\<rparr>],
                      effects := GameUpdate g # GameSave g # effects w\<rparr>
             else w)
      in case map_of (toasts w1) (g, undo) of
           None \<Rightarrow> (w1, Some KeyError)
         | Some toast \<Rightarrow>
             (w1\<lparr>effects := ToastDismiss toast # effects w1,
                 toasts := filter (\<lambda>kv. fst kv \<noteq> (g, undo)) (toasts w1)\<rparr>, None))"

definition on_undo_action ::
  "window \<Rightarrow> nat option \<Rightarrow> string option \<Rightarrow> window \<times> py_error option" where
  "on_undo_action w game undo =
     (case game of
        Some g \<Rightarrow> undo_game w g undo
      | None \<Rightarrow>
          (if importer_pending w then (w\<lparr>effects := UndoImport # effects w\<rparr>, None)
           else if toasts w = [] then (w, None)
           else undo_game w (fst (fst (last (toasts w)))) (snd (fst (last (toasts w))))))"

definition on_open_menu_action :: "window \<Rightarrow> window" where
  "on_open_menu_action w =
     (if visible_child w = LibraryView then w\<lparr>effects := PrimaryMenuPopup # effects w\<rparr>
      else if visible_child w = HiddenLibraryView
        then w\<lparr>effects := HiddenPrimaryMenuPopup # effects w\<rparr>
      else w)"

definition on_close_action :: "window \<Rightarrow> window" where
  "on_close_action w = w\<lparr>effects := WindowClose # effects w\<rparr>"

section \<open>Events and reachable states\<close>

text \<open>
  What the toolkit and the other modules change between two calls: the focus, the text of
  the entries, the games, the children of the two lists, the toasts and the importer. The
  fields are taken from a second state; everything else stays.
\<close>

definition environment :: "window \<Rightarrow> window \<Rightarrow> window" where
  "environment w e =
     w\<lparr>focus := focus e,
       search_text := search_text e,
       hidden_search_text := hidden_search_text e,
       store := store e,
       library_children := library_children e,
       hidden_library_children := hidden_library_children e,
       toasts := toasts e,
       shared_importer := shared_importer e\<rparr>"

datatype event =
    SearchChanged bool
  | SetLibraryChild
  | FilterFunc nat
  | SetActiveGame nat
  | ShowDetailsView nat
  | Navigate page
  | GoBack
  | GoToParent
  | GoHome
  | ShowHidden
  | SortAction string
  | ToggleSearch
  | Escape
  | ShowDetailsViewSearch widget
  | Undo "nat option" "string option"
  | OpenMenu
  | CloseWindow
  | Environment window

fun step :: "window \<Rightarrow> event \<Rightarrow> window" where
  "step w (SearchChanged hid) = search_changed w hid"
| "step w SetLibraryChild = set_library_child w"
| "step w (FilterFunc child) = snd (filter_func w child)"
| "step w (SetActiveGame g) = set_active_game w g"
| "step w (ShowDetailsView g) = show_details_view w g"
| "step w (Navigate next_page) = navigate w next_page"
| "step w GoBack = on_go_back_action w"
| "step w GoToParent = on_go_to_parent_action w"
| "step w GoHome = on_go_home_action w"
| "step w ShowHidden = on_show_hidden_action w"
| "step w (SortAction state_text) = on_sort_action w state_text"
| "step w ToggleSearch = on_toggle_search_action w"
| "step w Escape = on_escape_action w"
| "step w (ShowDetailsViewSearch x) = show_details_view_search w x"
| "step w (Undo game undo) = fst (on_undo_action w game undo)"
| "step w OpenMenu = on_open_menu_action w"
| "step w CloseWindow = on_close_action w"
| "step w (Environment e) = environment w e"

text \<open>
  Modelled from the spec: the interface template (\<^verbatim>\<open>gtk/window.ui\<close>), which fixes what the
  widgets show before any method runs, is not among the sources. The stack starts on the
  library page, the first page of the specification's page order and the value that
  \<^verbatim>\<open>__init__\<close> gives to \<^verbatim>\<open>previous_page\<close>; both search bars are closed, the lists have
  no children yet and the details view shows nothing. The rest is \<^verbatim>\<open>__init__\<close>: the class
  attributes \<^verbatim>\<open>sort_state = "a-z"\<close> and \<^verbatim>\<open>toasts = {}\<close>, the assignment of
  \<^verbatim>\<open>previous_page\<close> and the call of \<^verbatim>\<open>set_library_child\<close>.
\<close>

definition init_window :: "game list \<Rightarrow> window" where
  "init_window games =
     set_library_child
       \<lparr>visible_child = LibraryView,
        transition_type = NoTransition,
        previous_page = LibraryView,
        show_hidden_enabled = True,
        sort_state = ''a-z'',
        sort_action_state = [],
        sort_mode_setting = [],
        search_text = [],
        hidden_search_text = [],
        search_mode = False,
        hidden_search_mode = False,
        focus = None,
        store = games,
        library_children = [],
        hidden_library_children = [],
        library_bin_child = NoticeEmpty,
        hidden_library_bin_child = HiddenNoticeEmpty,
        toasts = [],
        shared_importer = None,
        active_game = None,
        details_view_title = [],
        details_view_developer = [],
        details_view_developer_visible = False,
        details_view_hide_icon = [],
        effects = []\<rparr>"

inductive reachable :: "window \<Rightarrow> bool" where
  reachable_init: "reachable (init_window games)"
| reachable_step: "reachable w \<Longrightarrow> reachable (step w e)"

section \<open>Auxiliary notions for the proofs\<close>

text \<open>The four flags of a game that placeholder selection reads.\<close>

definition game_flags :: "game \<Rightarrow> bool \<times> bool \<times> bool \<times> bool" where
  "game_flags g = (hidden g, removed g, blacklisted g, filtered g)"

text \<open>
  The selection rule in closed form, for one of the two groups: \<open>fs\<close> is the set of flag
  tuples of the games, \<open>hid\<close> picks the group and \<open>start\<close> is the widget the loop starts
  with.
\<close>

definition placeholder_choice ::
  "(bool \<times> bool \<times> bool \<times> bool) set \<Rightarrow> bool \<Rightarrow> widget \<Rightarrow> widget \<Rightarrow> widget \<Rightarrow> widget" where
  "placeholder_choice fs hid scrolled no_results start =
     (if start = scrolled \<or> (hid, False, False, False) \<in> fs then scrolled
      else if (hid, False, False, True) \<in> fs then no_results
      else start)"

text \<open>What one call of the filter function does to the list of games.\<close>

definition mark :: "string \<Rightarrow> game list \<Rightarrow> nat \<Rightarrow> game list" where
  "mark t st c = st[c := (st ! c)\<lparr>filtered := game_filtered t (st ! c)\<rparr>]"

text \<open>
  The navigation invariant: \<^verbatim>\<open>previous_page\<close> is a library page and, in its strict form,
  it is the visible page whenever a library page is visible.
\<close>

definition nav_ok :: "bool \<Rightarrow> window \<Rightarrow> bool" where
  "nav_ok strict w \<longleftrightarrow>
     previous_page w \<noteq> DetailsView \<and>
     (strict \<longrightarrow> visible_child w \<noteq> DetailsView \<longrightarrow> previous_page w = visible_child w)"

definition same_nav :: "window \<Rightarrow> window \<Rightarrow> bool" where
  "same_nav w w' \<longleftrightarrow>
     visible_child w' = visible_child w \<and> previous_page w' = previous_page w"

text \<open>
  With a comparator that tells "before" from "after" by sign, \<open>x\<close> may stand before \<open>y\<close>
  unless the comparator puts \<open>y\<close> before \<open>x\<close> in both directions of asking.
\<close>

definition may_precede :: "('a \<Rightarrow> 'a \<Rightarrow> int) \<Rightarrow> 'a \<Rightarrow> 'a \<Rightarrow> bool" where
  "may_precede cmp x y \<longleftrightarrow> \<not> (cmp y x < 0 \<and> 0 < cmp x y)"

section \<open>Example data\<close>

definition new_game :: "string \<Rightarrow> string option \<Rightarrow> int \<Rightarrow> int option \<Rightarrow> game" where
  "new_game n d a lp =
     \<lparr>name = n, developer = d, added = a, last_played = lp, hidden = False,
      removed = False, blacklisted = False, filtered = False, loading = False\<rparr>"

definition example_store :: "game list" where
  "example_store =
     [new_game ''Zelda'' None 2020 None,
      (new_game ''Mario'' (Some ''Zelda Co'') 2021 None)\<lparr>hidden := True\<rparr>]"

text \<open>
  A window on page \<open>p\<close> with the two example games, one in each list, and the given texts
  in the two search entries.
\<close>

definition example_window :: "page \<Rightarrow> string \<Rightarrow> string \<Rightarrow> window" where
  "example_window p q hq =
     navigate
       ((init_window example_store)
          \<lparr>search_text := q, hidden_search_text := hq,
           library_children := [0], hidden_library_children := [1]\<rparr>) p"

text \<open>The window after the second example game was hidden: its undo toast is pending.\<close>

definition undo_window :: window where
  "undo_window = (init_window example_store)\<lparr>toasts := [((1, Some ''hide''), 7)]\<rparr>"

text \<open>
  A window with two games in the library list and two in the hidden list, each list
  shown in the order in which the games were added to the store.
\<close>

definition sort_window :: window where
  "sort_window =
     (init_window
        [new_game ''Zelda'' None 2020 None,
         new_game ''Alpha'' None 2021 None,
         (new_game ''Mario'' None 2019 None)\<lparr>hidden := True\<rparr>,
         (new_game ''Luigi'' None 2022 None)\<lparr>hidden := True\<rparr>])
       \<lparr>library_children := [0, 1], hidden_library_children := [2, 3]\<rparr>"

section \<open>Properties of the sort comparator\<close>

lemma xor_sign_values: "xor_sign p q = (if p = q then - 1 else 1)"
  by (simp add: xor_sign_def)

lemma sort_func_unfold:
  assumes "sort_params m = (var, order)"
  shows "sort_func m a b =
     (if var \<noteq> VName \<and> get_value var a \<noteq> get_value var b
        then xor_sign (get_value var b < get_value var a) order
      else xor_sign (lower (name b) < lower (name a)) (var \<noteq> VName \<or> order))"
  using assms by (simp add: sort_func_def Let_def)

lemma sort_params_last_played: "sort_params ''last_played'' = (VLastPlayed, True)"
  by (simp add: sort_params_def)

lemma lex_trans:
  fixes ka kb kc na nb nc :: string
  assumes "(if keyed \<and> ka \<noteq> kb then xor_sign (kb < ka) order
            else xor_sign (nb < na) (keyed \<or> order)) < 0"
      and "(if keyed \<and> kb \<noteq> kc then xor_sign (kc < kb) order
            else xor_sign (nc < nb) (keyed \<or> order)) < 0"
  shows "(if keyed \<and> ka \<noteq> kc then xor_sign (kc < ka) order
          else xor_sign (nc < na) (keyed \<or> order)) < 0"
  using assms by (cases keyed; cases order) (auto simp: xor_sign_values split: if_splits)

lemma sort_params_z_a: "sort_params ''z-a'' = (VName, True)"
  by (simp add: sort_params_def)

text \<open>
  Claim C2, as amended. In the mode \<^verbatim>\<open>last_played\<close> the comparator orders two items
  descending by the lowercased text of \<^verbatim>\<open>last_played\<close>: the item with the greater text
  gets \<open>-1\<close> and so comes first. When the two texts are equal (or both absent) the
  comparison falls back to the names, again descending: the result is \<open>-1\<close> when the first
  item has the greater lowercased name and \<open>1\<close> otherwise, which is what the mode
  \<^verbatim>\<open>z-a\<close> returns for the two items.
\<close>

theorem sort_func_last_played:
  "(get_value VLastPlayed b < get_value VLastPlayed a \<longrightarrow> sort_func ''last_played'' a b = - 1) \<and>
   (get_value VLastPlayed a < get_value VLastPlayed b \<longrightarrow> sort_func ''last_played'' a b = 1) \<and>
   (get_value VLastPlayed a = get_value VLastPlayed b \<longrightarrow>
      sort_func ''last_played'' a b = (if lower (name b) < lower (name a) then - 1 else 1) \<and>
      sort_func ''last_played'' a b = sort_func ''z-a'' a b)"
  by (auto simp: sort_func_unfold [OF sort_params_last_played]
      sort_func_unfold [OF sort_params_z_a] xor_sign_values)

theorem sort_func_last_played_witness:
  "sort_func ''last_played'' (new_game ''a'' None 0 (Some 2)) (new_game ''b'' None 0 (Some 1)) = - 1 \<and>
   sort_func ''last_played'' (new_game ''a'' None 0 (Some 1)) (new_game ''b'' None 0 (Some 2)) = 1 \<and>
   sort_func ''last_played'' (new_game ''Zelda'' None 5 None) (new_game ''ALPHA'' None 6 None) = - 1 \<and>
   sort_func ''last_played'' (new_game ''ALPHA'' None 6 (Some 7)) (new_game ''Zelda'' None 5 (Some 7)) = 1"
proof -
  have h1: "get_value VLastPlayed (new_game ''b'' None 0 (Some 1))
              < get_value VLastPlayed (new_game ''a'' None 0 (Some 2))"
    by code_simp
  have h2: "get_value VLastPlayed (new_game ''a'' None 0 (Some 1))
              < get_value VLastPlayed (new_game ''b'' None 0 (Some 2))"
    by code_simp
  have h3: "get_value VLastPlayed (new_game ''Zelda'' None 5 None)
              = get_value VLastPlayed (new_game ''ALPHA'' None 6 None) \<and>
            lower (name (new_game ''ALPHA'' None 6 None))
              < lower (name (new_game ''Zelda'' None 5 None))"
    by code_simp
  have h4: "get_value VLastPlayed (new_game ''ALPHA'' None 6 (Some 7))
              = get_value VLastPlayed (new_game ''Zelda'' None 5 (Some 7)) \<and>
            \<not> lower (name (new_game ''Zelda'' None 5 (Some 7)))
              < lower (name (new_game ''ALPHA'' None 6 (Some 7)))"
    by code_simp
  show ?thesis
    using h1 h2 h3 h4
      sort_func_last_played [where a = "new_game ''a'' None 0 (Some 2)"
        and b = "new_game ''b'' None 0 (Some 1)"]
      sort_func_last_played [where a = "new_game ''a'' None 0 (Some 1)"
        and b = "new_game ''b'' None 0 (Some 2)"]
      sort_func_last_played [where a = "new_game ''Zelda'' None 5 None"
        and b = "new_game ''ALPHA'' None 6 None"]
      sort_func_last_played [where a = "new_game ''ALPHA'' None 6 (Some 7)"
        and b = "new_game ''Zelda'' None 5 (Some 7)"]
    by simp
qed

text \<open>
  Claim C2 as stated fails: of two games that differ only in \<^verbatim>\<open>last_played\<close> (1 and 2),
  the one played earlier is placed after the other (result \<open>1\<close>), and of two games never
  played, named \<^verbatim>\<open>a\<close> and \<^verbatim>\<open>b\<close>, the one named \<^verbatim>\<open>a\<close> is placed after the other.
\<close>

theorem sort_func_last_played_counterexample:
  "sort_func ''last_played'' (new_game ''a'' None 0 (Some 1)) (new_game ''a'' None 0 (Some 2)) = 1 \<and>
   sort_func ''last_played'' (new_game ''a'' None 0 None) (new_game ''b'' None 0 None) = 1"
  by code_simp

text \<open>
  Claim C3, as amended. For every value of \<^verbatim>\<open>sort_state\<close> the comparator returns \<open>-1\<close> or
  \<open>1\<close> and never \<open>0\<close>. Swapping the arguments negates the result when the two items differ in
  the lowercased text of the key or in the lowercased name; when they agree on both, the
  result is the same in both directions. The relation "the result is negative" is
  transitive.
\<close>

theorem sort_func_sign_order:
  "(sort_func m a b = - 1 \<or> sort_func m a b = 1) \<and>
   ((get_value (fst (sort_params m)) a, lower (name a))
       \<noteq> (get_value (fst (sort_params m)) b, lower (name b)) \<longrightarrow>
      sort_func m a b = - sort_func m b a) \<and>
   ((get_value (fst (sort_params m)) a, lower (name a))
       = (get_value (fst (sort_params m)) b, lower (name b)) \<longrightarrow>
      sort_func m a b = sort_func m b a) \<and>
   (sort_func m a b < 0 \<and> sort_func m b c < 0 \<longrightarrow> sort_func m a c < 0)"
proof -
  obtain var order where p: "sort_params m = (var, order)" by (cases "sort_params m")
  have range: "sort_func m a b = - 1 \<or> sort_func m a b = 1"
    by (simp add: sort_func_unfold [OF p] xor_sign_values)
  have anti: "(get_value var a, lower (name a)) \<noteq> (get_value var b, lower (name b)) \<Longrightarrow>
      sort_func m a b = - sort_func m b a"
    by (cases var) (auto simp: sort_func_unfold [OF p] xor_sign_values)
  have same: "(get_value var a, lower (name a)) = (get_value var b, lower (name b)) \<Longrightarrow>
      sort_func m a b = sort_func m b a"
    by (simp add: sort_func_unfold [OF p])
  have trans: "sort_func m a b < 0 \<Longrightarrow> sort_func m b c < 0 \<Longrightarrow> sort_func m a c < 0"
    using lex_trans [of "var \<noteq> VName" "get_value var a" "get_value var b" order
        "lower (name b)" "lower (name a)" "get_value var c" "lower (name c)"]
    by (simp only: sort_func_unfold [OF p])
  show ?thesis using range anti same trans by (simp only: p fst_conv) blast
qed

theorem sort_func_sign_order_witness:
  "sort_func ''newest'' (new_game ''Alpha'' None 2021 None) (new_game ''Zelda'' None 2020 None)
     = - sort_func ''newest'' (new_game ''Zelda'' None 2020 None) (new_game ''Alpha'' None 2021 None) \<and>
   sort_func ''a-z'' (new_game ''Zelda'' None 0 None) (new_game ''zelda'' None 0 None)
     = sort_func ''a-z'' (new_game ''zelda'' None 0 None) (new_game ''Zelda'' None 0 None) \<and>
   sort_func ''newest'' (new_game ''Alpha'' None 2021 None) (new_game ''Mario'' None 2019 None) < 0"
proof -
  have h1: "(get_value (fst (sort_params ''newest'')) (new_game ''Alpha'' None 2021 None),
               lower (name (new_game ''Alpha'' None 2021 None)))
            \<noteq> (get_value (fst (sort_params ''newest'')) (new_game ''Zelda'' None 2020 None),
               lower (name (new_game ''Zelda'' None 2020 None)))"
    by code_simp
  have h2: "(get_value (fst (sort_params ''a-z'')) (new_game ''Zelda'' None 0 None),
               lower (name (new_game ''Zelda'' None 0 None)))
            = (get_value (fst (sort_params ''a-z'')) (new_game ''zelda'' None 0 None),
               lower (name (new_game ''zelda'' None 0 None)))"
    by code_simp
  have h3: "sort_func ''newest'' (new_game ''Alpha'' None 2021 None)
              (new_game ''Zelda'' None 2020 None) < 0 \<and>
            sort_func ''newest'' (new_game ''Zelda'' None 2020 None)
              (new_game ''Mario'' None 2019 None) < 0"
    by code_simp
  show ?thesis
    using h1 h2 h3
      sort_func_sign_order [where m = "''newest''" and a = "new_game ''Alpha'' None 2021 None"
        and b = "new_game ''Zelda'' None 2020 None" and c = "new_game ''Mario'' None 2019 None"]
      sort_func_sign_order [where m = "''a-z''" and a = "new_game ''Zelda'' None 0 None"
        and b = "new_game ''zelda'' None 0 None"]
    by blast
qed

text \<open>
  Claim C3 as stated fails: for two games whose names differ only in case, the mode
  \<^verbatim>\<open>a-z\<close> gives \<open>-1\<close> in both directions, and for a game compared with an equal one the
  mode \<^verbatim>\<open>newest\<close> gives \<open>1\<close>, not \<open>0\<close>.
\<close>

theorem sort_func_sign_order_counterexample:
  "sort_func ''a-z'' (new_game ''Zelda'' None 0 None) (new_game ''zelda'' None 0 None) = - 1 \<and>
   sort_func ''a-z'' (new_game ''zelda'' None 0 None) (new_game ''Zelda'' None 0 None) = - 1 \<and>
   sort_func ''newest'' (new_game ''Zelda'' None 2020 None) (new_game ''Zelda'' None 2020 None) = 1"
  by code_simp

lemma lex_may_precede_trans:
  fixes ka kb kc na nb nc :: string
  assumes "\<not> ((if keyed \<and> kb \<noteq> ka then xor_sign (ka < kb) order
                else xor_sign (na < nb) (keyed \<or> order)) < 0 \<and>
              0 < (if keyed \<and> ka \<noteq> kb then xor_sign (kb < ka) order
                   else xor_sign (nb < na) (keyed \<or> order)))"
      and "\<not> ((if keyed \<and> kc \<noteq> kb then xor_sign (kb < kc) order
                else xor_sign (nb < nc) (keyed \<or> order)) < 0 \<and>
              0 < (if keyed \<and> kb \<noteq> kc then xor_sign (kc < kb) order
                   else xor_sign (nc < nb) (keyed \<or> order)))"
  shows "\<not> ((if keyed \<and> kc \<noteq> ka then xor_sign (ka < kc) order
              else xor_sign (na < nc) (keyed \<or> order)) < 0 \<and>
            0 < (if keyed \<and> ka \<noteq> kc then xor_sign (kc < ka) order
                 else xor_sign (nc < na) (keyed \<or> order)))"
  using assms by (cases keyed; cases order) (auto simp: xor_sign_values split: if_splits)

lemma may_precede_sort_func_trans:
  assumes "may_precede (sort_func m) a b" and "may_precede (sort_func m) b c"
  shows "may_precede (sort_func m) a c"
proof -
  obtain var order where p: "sort_params m = (var, order)" by (cases "sort_params m")
  show ?thesis
    using assms
      lex_may_precede_trans [where keyed = "var \<noteq> VName" and order = order
        and ka = "get_value var a" and kb = "get_value var b" and kc = "get_value var c"
        and na = "lower (name a)" and nb = "lower (name b)" and nc = "lower (name c)"]
    unfolding may_precede_def sort_func_unfold [OF p] by blast
qed

section \<open>Properties of placeholder selection\<close>

lemma loop_fst:
  "fst (set_library_child_loop gs (c, h)) =
     placeholder_choice (game_flags ` set gs) False Scrolledwindow NoticeNoResults c"
proof (induction gs arbitrary: c h)
  case Nil
  show ?case by (simp add: placeholder_choice_def)
next
  case (Cons g gs)
  show ?case
    by (cases "hidden g"; cases "removed g"; cases "blacklisted g"; cases "filtered g")
       (auto simp: Cons.IH placeholder_choice_def game_flags_def)
qed

lemma loop_snd:
  "snd (set_library_child_loop gs (c, h)) =
     placeholder_choice (game_flags ` set gs) True HiddenScrolledwindow HiddenNoticeNoResults h"
proof (induction gs arbitrary: c h)
  case Nil
  show ?case by (simp add: placeholder_choice_def)
next
  case (Cons g gs)
  show ?case
    by (cases "hidden g"; cases "removed g"; cases "blacklisted g"; cases "filtered g")
       (auto simp: Cons.IH placeholder_choice_def game_flags_def)
qed

lemma library_bin_child_set:
  "library_bin_child (set_library_child w) =
     placeholder_choice (game_flags ` set (store w)) False Scrolledwindow NoticeNoResults NoticeEmpty"
  using loop_fst [of "store w" NoticeEmpty HiddenNoticeEmpty]
  by (simp add: set_library_child_def case_prod_beta)

lemma hidden_library_bin_child_set:
  "hidden_library_bin_child (set_library_child w) =
     placeholder_choice (game_flags ` set (store w)) True HiddenScrolledwindow HiddenNoticeNoResults
       HiddenNoticeEmpty"
  using loop_snd [of "store w" NoticeEmpty HiddenNoticeEmpty]
  by (simp add: set_library_child_def case_prod_beta)

lemma store_set_library_child [simp]: "store (set_library_child w) = store w"
  by (simp add: set_library_child_def case_prod_beta)

lemma set_library_child_idem: "set_library_child (set_library_child w) = set_library_child w"
  by (simp add: set_library_child_def case_prod_beta)

lemma flags_unfiltered:
  "(hid, False, False, False) \<in> game_flags ` set gs \<longleftrightarrow>
     (\<exists>g\<in>set gs. \<not> removed g \<and> \<not> blacklisted g \<and> hidden g = hid \<and> \<not> filtered g)"
  by (auto simp: game_flags_def image_iff)

lemma flags_filtered:
  "(hid, False, False, True) \<in> game_flags ` set gs \<longleftrightarrow>
     (\<exists>g\<in>set gs. \<not> removed g \<and> \<not> blacklisted g \<and> hidden g = hid \<and> filtered g)"
  by (auto simp: game_flags_def image_iff)

text \<open>
  Claim C4. The widget chosen for each of the two bins depends only on the set of flag
  tuples \<open>(hidden, removed, blacklisted, filtered)\<close> of the games, so neither the order of
  the games nor any other field matters: among the games that are neither removed nor
  blacklisted, the library bin gets the scroll container if some game that is not hidden
  is not filtered, else the no-results notice if there is a game that is not hidden, else
  the empty notice; the hidden bin likewise for the hidden games. Running the selection a
  second time changes nothing.
\<close>

theorem set_library_child_choice:
  "library_bin_child (set_library_child w) =
     (if \<exists>g\<in>set (store w). \<not> removed g \<and> \<not> blacklisted g \<and> \<not> hidden g \<and> \<not> filtered g
        then Scrolledwindow
      else if \<exists>g\<in>set (store w). \<not> removed g \<and> \<not> blacklisted g \<and> \<not> hidden g
        then NoticeNoResults
      else NoticeEmpty) \<and>
   hidden_library_bin_child (set_library_child w) =
     (if \<exists>g\<in>set (store w). \<not> removed g \<and> \<not> blacklisted g \<and> hidden g \<and> \<not> filtered g
        then HiddenScrolledwindow
      else if \<exists>g\<in>set (store w). \<not> removed g \<and> \<not> blacklisted g \<and> hidden g
        then HiddenNoticeNoResults
      else HiddenNoticeEmpty) \<and>
   (game_flags ` set (store w') = game_flags ` set (store w) \<longrightarrow>
      library_bin_child (set_library_child w') = library_bin_child (set_library_child w) \<and>
      hidden_library_bin_child (set_library_child w')
        = hidden_library_bin_child (set_library_child w)) \<and>
   set_library_child (set_library_child w) = set_library_child w"
proof -
  have a: "library_bin_child (set_library_child w) =
     (if \<exists>g\<in>set (store w). \<not> removed g \<and> \<not> blacklisted g \<and> \<not> hidden g \<and> \<not> filtered g
        then Scrolledwindow
      else if \<exists>g\<in>set (store w). \<not> removed g \<and> \<not> blacklisted g \<and> \<not> hidden g
        then NoticeNoResults
      else NoticeEmpty)"
    unfolding library_bin_child_set placeholder_choice_def flags_unfiltered flags_filtered by auto
  have b: "hidden_library_bin_child (set_library_child w) =
     (if \<exists>g\<in>set (store w). \<not> removed g \<and> \<not> blacklisted g \<and> hidden g \<and> \<not> filtered g
        then HiddenScrolledwindow
      else if \<exists>g\<in>set (store w). \<not> removed g \<and> \<not> blacklisted g \<and> hidden g
        then HiddenNoticeNoResults
      else HiddenNoticeEmpty)"
    unfolding hidden_library_bin_child_set placeholder_choice_def flags_unfiltered flags_filtered by auto
  have c: "game_flags ` set (store w') = game_flags ` set (store w) \<Longrightarrow>
      library_bin_child (set_library_child w') = library_bin_child (set_library_child w) \<and>
      hidden_library_bin_child (set_library_child w')
        = hidden_library_bin_child (set_library_child w)"
    by (simp add: library_bin_child_set hidden_library_bin_child_set)
  show ?thesis using a b c set_library_child_idem [of w] by blast
qed

theorem set_library_child_choice_witness:
  "library_bin_child (set_library_child (example_window LibraryView [] [])) = Scrolledwindow \<and>
   hidden_library_bin_child (set_library_child (example_window LibraryView [] []))
     = HiddenScrolledwindow \<and>
   library_bin_child (set_library_child (init_window (rev example_store)))
     = library_bin_child (set_library_child (example_window LibraryView [] []))"
proof -
  have h1: "\<exists>g\<in>set (store (example_window LibraryView [] [])).
              \<not> removed g \<and> \<not> blacklisted g \<and> \<not> hidden g \<and> \<not> filtered g"
    by code_simp
  have h2: "\<exists>g\<in>set (store (example_window LibraryView [] [])).
              \<not> removed g \<and> \<not> blacklisted g \<and> hidden g \<and> \<not> filtered g"
    by code_simp
  have h3: "game_flags ` set (store (init_window (rev example_store)))
              = game_flags ` set (store (example_window LibraryView [] []))"
    by code_simp
  show ?thesis
    using h1 h2 h3
      set_library_child_choice [where w = "example_window LibraryView [] []"
        and w' = "init_window (rev example_store)"]
    by simp
qed

section \<open>Properties of the filter predicate\<close>

lemma lower_Nil [simp]: "lower s = [] \<longleftrightarrow> s = []"
  by (simp add: lower_def)

lemma lower_empty [simp]: "lower [] = []"
  by (simp add: lower_def)

lemma fst_filter_func:
  "fst (filter_func w child) = (\<not> game_filtered (lower (active_search_text w)) (store w ! child))"
  by (simp add: filter_func_def Let_def)

lemma store_filter_func:
  "store (snd (filter_func w child)) =
     (store w)[child := (store w ! child)
        \<lparr>filtered := game_filtered (lower (active_search_text w)) (store w ! child)\<rparr>]"
  by (simp add: filter_func_def Let_def)

lemma game_filtered_iff:
  "game_filtered (lower q) g \<longleftrightarrow>
     \<not> (q = [] \<or> str_in (lower q) (lower (name g)) \<or>
        (\<exists>d. developer g = Some d \<and> str_in (lower q) (lower d)))"
  by (cases "developer g") (auto simp: game_filtered_def developer_matches_def str_in_def)

text \<open>
  Claim C1. For the game of a child and the text \<open>Q\<close> of the active search entry, the
  filter function returns true exactly when \<open>Q\<close> is empty, or the lowercased \<open>Q\<close> occurs
  in the lowercased name, or the game has a developer and the lowercased \<open>Q\<close> occurs in the
  lowercased developer; and it sets \<^verbatim>\<open>filtered\<close> of the game to the negation of what it
  returns.
\<close>

theorem filter_func_keeps_iff:
  assumes "child < length (store w)"
  shows "(fst (filter_func w child) \<longleftrightarrow>
            active_search_text w = [] \<or>
            str_in (lower (active_search_text w)) (lower (name (store w ! child))) \<or>
            (\<exists>d. developer (store w ! child) = Some d \<and>
                 str_in (lower (active_search_text w)) (lower d))) \<and>
         filtered (store (snd (filter_func w child)) ! child) = (\<not> fst (filter_func w child))"
  using assms
  by (simp add: fst_filter_func store_filter_func game_filtered_iff)

theorem filter_func_keeps_iff_witness:
  "fst (filter_func (example_window LibraryView ''zel'' []) 1) \<and>
   \<not> filtered (store (snd (filter_func (example_window LibraryView ''zel'' []) 1)) ! 1)"
proof -
  have h0: "1 < length (store (example_window LibraryView ''zel'' []))"
    by code_simp
  have h1: "developer (store (example_window LibraryView ''zel'' []) ! 1) = Some ''Zelda Co'' \<and>
            str_in (lower (active_search_text (example_window LibraryView ''zel'' [])))
              (lower ''Zelda Co'')"
    by code_simp
  show ?thesis
    using h1 filter_func_keeps_iff [OF h0] by blast
qed

lemma game_filtered_cong:
  "name g' = name g \<Longrightarrow> developer g' = developer g \<Longrightarrow> game_filtered t g' = game_filtered t g"
  by (simp add: game_filtered_def developer_matches_def)

lemma visible_child_set_library_child [simp]:
  "visible_child (set_library_child w) = visible_child w"
  by (simp add: set_library_child_def case_prod_beta)

lemma search_text_set_library_child [simp]:
  "search_text (set_library_child w) = search_text w"
  "hidden_search_text (set_library_child w) = hidden_search_text w"
  by (simp_all add: set_library_child_def case_prod_beta)

lemma active_search_text_filter_func [simp]:
  "active_search_text (snd (filter_func w child)) = active_search_text w"
  by (simp add: filter_func_def Let_def active_search_text_def)

lemma store_invalidate_filter:
  "store (invalidate_filter w cs) = fold (\<lambda>c st. mark (lower (active_search_text w)) st c) cs (store w)
   \<and> active_search_text (invalidate_filter w cs) = active_search_text w"
proof (induction cs arbitrary: w)
  case Nil
  show ?case by (simp add: invalidate_filter_def)
next
  case (Cons c cs)
  have "invalidate_filter w (c # cs) = invalidate_filter (snd (filter_func w c)) cs"
    by (simp add: invalidate_filter_def)
  then show ?case
    using Cons.IH [of "snd (filter_func w c)"]
    by (simp add: store_filter_func mark_def)
qed

lemma mark_nth:
  "length (mark t st c) = length st"
  "i < length st \<Longrightarrow> name (mark t st c ! i) = name (st ! i)"
  "i < length st \<Longrightarrow> developer (mark t st c ! i) = developer (st ! i)"
  "i < length st \<Longrightarrow>
     filtered (mark t st c ! i) = (if i = c then game_filtered t (st ! i) else filtered (st ! i))"
  by (cases "i = c"; simp add: mark_def)+

lemma fold_mark_length [simp]: "length (fold (\<lambda>c st. mark t st c) cs st) = length st"
  by (induction cs arbitrary: st) (simp_all add: mark_nth(1))

lemma fold_mark_name:
  "i < length st \<Longrightarrow>
     name (fold (\<lambda>c st. mark t st c) cs st ! i) = name (st ! i) \<and>
     developer (fold (\<lambda>c st. mark t st c) cs st ! i) = developer (st ! i)"
  by (induction cs arbitrary: st) (simp_all add: mark_nth)

lemma fold_mark_filtered:
  "i < length st \<Longrightarrow>
     filtered (fold (\<lambda>c st. mark t st c) cs st ! i) =
       (if i \<in> set cs then game_filtered t (st ! i) else filtered (st ! i))"
proof (induction cs arbitrary: st)
  case Nil
  then show ?case by simp
next
  case (Cons c cs)
  let ?st = "mark t st c"
  have len: "i < length ?st" using Cons.prems by (simp add: mark_nth(1))
  have same: "game_filtered t (?st ! i) = game_filtered t (st ! i)"
    using Cons.prems by (intro game_filtered_cong) (simp_all add: mark_nth)
  have f: "filtered (?st ! i) = (if i = c then game_filtered t (st ! i) else filtered (st ! i))"
    using Cons.prems by (rule mark_nth(4))
  have "filtered (fold (\<lambda>c st. mark t st c) (c # cs) st ! i) =
          filtered (fold (\<lambda>c st. mark t st c) cs ?st ! i)"
    by simp
  also have "\<dots> = (if i \<in> set cs then game_filtered t (?st ! i) else filtered (?st ! i))"
    by (rule Cons.IH [OF len])
  also have "\<dots> = (if i \<in> set (c # cs) then game_filtered t (st ! i) else filtered (st ! i))"
    using same f by (cases "i = c"; cases "i \<in> set cs"; simp)
  finally show ?case .
qed

lemma filtered_invalidate_filter:
  "c < length (store w) \<Longrightarrow> c \<in> set cs \<Longrightarrow>
     filtered (store (invalidate_filter w cs) ! c) =
       game_filtered (lower (active_search_text w)) (store w ! c)"
  using fold_mark_filtered [of c "store w" "lower (active_search_text w)" cs]
  by (simp add: store_invalidate_filter)

text \<open>
  Claim C9. The text that the filter function applies is chosen by the visible page and
  not by the list the item is in: while the hidden library page is visible every item is
  matched against the text of the hidden search entry, and otherwise against the text of
  the library search entry. So when the filter of the library list is invalidated while
  the hidden library page is visible, its items are filtered by the hidden entry's text,
  and the other way round.
\<close>

theorem filter_func_text_of_visible_page:
  "(visible_child w = HiddenLibraryView \<longrightarrow>
      fst (filter_func w child) =
        (\<not> game_filtered (lower (hidden_search_text w)) (store w ! child))) \<and>
   (visible_child w \<noteq> HiddenLibraryView \<longrightarrow>
      fst (filter_func w child) =
        (\<not> game_filtered (lower (search_text w)) (store w ! child))) \<and>
   (visible_child w = HiddenLibraryView \<and> c \<in> set (library_children w) \<and>
    c < length (store w) \<longrightarrow>
      filtered (store (search_changed w False) ! c) =
        game_filtered (lower (hidden_search_text w)) (store w ! c)) \<and>
   (visible_child w \<noteq> HiddenLibraryView \<and> c \<in> set (hidden_library_children w) \<and>
    c < length (store w) \<longrightarrow>
      filtered (store (search_changed w True) ! c) =
        game_filtered (lower (search_text w)) (store w ! c))"
proof -
  have a: "visible_child w = HiddenLibraryView \<Longrightarrow>
      active_search_text w = hidden_search_text w"
    by (simp add: active_search_text_def)
  have b: "visible_child w \<noteq> HiddenLibraryView \<Longrightarrow> active_search_text w = search_text w"
    by (simp add: active_search_text_def)
  show ?thesis
    using a b
      filtered_invalidate_filter [of c w "library_children w"]
      filtered_invalidate_filter [of c w "hidden_library_children w"]
    by (simp add: fst_filter_func search_changed_def)
qed

theorem filter_func_text_of_visible_page_witness:
  "\<not> fst (filter_func (example_window HiddenLibraryView ''zel'' ''mar'') 0) \<and>
   filtered (store (search_changed (example_window HiddenLibraryView ''zel'' ''mar'') False) ! 0) \<and>
   \<not> fst (filter_func (example_window LibraryView ''xyz'' ''mar'') 1) \<and>
   filtered (store (search_changed (example_window LibraryView ''xyz'' ''mar'') True) ! 1)"
proof -
  have h1: "visible_child (example_window HiddenLibraryView ''zel'' ''mar'') = HiddenLibraryView \<and>
            0 \<in> set (library_children (example_window HiddenLibraryView ''zel'' ''mar'')) \<and>
            0 < length (store (example_window HiddenLibraryView ''zel'' ''mar'')) \<and>
            game_filtered (lower (hidden_search_text (example_window HiddenLibraryView ''zel'' ''mar'')))
              (store (example_window HiddenLibraryView ''zel'' ''mar'') ! 0)"
    by code_simp
  have h2: "visible_child (example_window LibraryView ''xyz'' ''mar'') \<noteq> HiddenLibraryView \<and>
            1 \<in> set (hidden_library_children (example_window LibraryView ''xyz'' ''mar'')) \<and>
            1 < length (store (example_window LibraryView ''xyz'' ''mar'')) \<and>
            game_filtered (lower (search_text (example_window LibraryView ''xyz'' ''mar'')))
              (store (example_window LibraryView ''xyz'' ''mar'') ! 1)"
    by code_simp
  show ?thesis
    using h1 h2
      filter_func_text_of_visible_page [where w = "example_window HiddenLibraryView ''zel'' ''mar''"
        and child = 0 and c = 0]
      filter_func_text_of_visible_page [where w = "example_window LibraryView ''xyz'' ''mar''"
        and child = 1 and c = 1]
    by blast
qed

section \<open>Properties of navigation\<close>

lemma same_nav_refl [simp]: "same_nav w w"
  by (simp add: same_nav_def)

lemma same_nav_trans: "same_nav a b \<Longrightarrow> same_nav b c \<Longrightarrow> same_nav a c"
  by (simp add: same_nav_def)

lemma nav_ok_same: "same_nav w w' \<Longrightarrow> nav_ok s w \<Longrightarrow> nav_ok s w'"
  by (simp add: same_nav_def nav_ok_def)

lemma same_nav_set_library_child: "same_nav w (set_library_child w)"
  by (simp add: same_nav_def set_library_child_def case_prod_beta)

lemma same_nav_filter_func: "same_nav w (snd (filter_func w child))"
  using same_nav_set_library_child
    [of "w\<lparr>store := (store w)[child := (store w ! child)
          \<lparr>filtered := game_filtered (lower (active_search_text w)) (store w ! child)\<rparr>]\<rparr>"]
  by (simp add: filter_func_def Let_def same_nav_def)

lemma same_nav_invalidate_filter: "same_nav w (invalidate_filter w cs)"
proof (induction cs arbitrary: w)
  case Nil
  show ?case by (simp add: invalidate_filter_def)
next
  case (Cons c cs)
  have "invalidate_filter w (c # cs) = invalidate_filter (snd (filter_func w c)) cs"
    by (simp add: invalidate_filter_def)
  then show ?case
    using same_nav_trans [OF same_nav_filter_func [of w c] Cons.IH [of "snd (filter_func w c)"]]
    by simp
qed

lemma same_nav_search_changed: "same_nav w (search_changed w hid)"
  by (simp add: search_changed_def same_nav_invalidate_filter)

lemma same_nav_set_active_game: "same_nav w (set_active_game w g)"
  by (simp add: same_nav_def set_active_game_def)

lemma same_nav_on_sort_action: "same_nav w (on_sort_action w t)"
  by (simp add: same_nav_def on_sort_action_def Let_def)

lemma same_nav_on_toggle_search_action: "same_nav w (on_toggle_search_action w)"
  by (simp add: same_nav_def on_toggle_search_action_def Let_def set_focus_def)

lemma same_nav_undo_game: "same_nav w (fst (undo_game w g u))"
  by (simp add: same_nav_def undo_game_def Let_def split: option.splits)

lemma same_nav_on_undo_action: "same_nav w (fst (on_undo_action w g u))"
proof (cases g)
  case None
  have "same_nav w (w\<lparr>effects := UndoImport # effects w\<rparr>)"
    by (simp add: same_nav_def)
  then show ?thesis
    using None by (simp add: on_undo_action_def same_nav_undo_game)
next
  case (Some a)
  then show ?thesis by (simp add: on_undo_action_def same_nav_undo_game)
qed

lemma same_nav_on_open_menu_action: "same_nav w (on_open_menu_action w)"
  by (simp add: same_nav_def on_open_menu_action_def)

lemma same_nav_on_close_action: "same_nav w (on_close_action w)"
  by (simp add: same_nav_def on_close_action_def)

lemma same_nav_environment: "same_nav w (environment w e)"
  by (simp add: same_nav_def environment_def)

lemma nav_navigate:
  "visible_child (navigate w p) = p"
  "previous_page (navigate w p) = (if p = DetailsView then previous_page w else p)"
  by (cases p; simp add: navigate_def Let_def)+

lemma nav_ok_navigate: "nav_ok s w \<Longrightarrow> nav_ok s (navigate w p)"
  by (cases p) (simp_all add: nav_ok_def nav_navigate)

lemma nav_ok_on_go_to_parent_action: "nav_ok s w \<Longrightarrow> nav_ok s (on_go_to_parent_action w)"
  by (simp add: on_go_to_parent_action_def nav_ok_navigate)

lemma nav_ok_on_go_back_action: "nav_ok s w \<Longrightarrow> nav_ok s (on_go_back_action w)"
  by (simp add: on_go_back_action_def nav_ok_navigate nav_ok_on_go_to_parent_action)

lemma nav_show_details_view:
  "visible_child (show_details_view w g) = DetailsView \<or> same_nav w (show_details_view w g)"
  "previous_page (show_details_view w g) = previous_page w"
  by (simp_all add: show_details_view_def Let_def set_focus_def nav_navigate same_nav_def)

lemma nav_ok_show_details_view: "nav_ok s w \<Longrightarrow> nav_ok s (show_details_view w g)"
  using nav_show_details_view [of w g] by (auto simp: nav_ok_def same_nav_def)

lemma nav_ok_show_details_view_search_loop:
  "nav_ok s w \<Longrightarrow> nav_ok s (show_details_view_search_loop w cs)"
proof (induction cs arbitrary: w)
  case Nil
  then show ?case by simp
next
  case (Cons c cs)
  have ok: "nav_ok s (snd (filter_func w c))"
    using nav_ok_same [OF same_nav_filter_func Cons.prems] .
  show ?case
    using Cons.IH [OF ok] nav_ok_show_details_view [OF ok]
    by (simp add: case_prod_beta)
qed

lemma nav_ok_on_escape_action: "nav_ok s w \<Longrightarrow> nav_ok s (on_escape_action w)"
  by (simp add: on_escape_action_def nav_ok_on_go_back_action
      nav_ok_same [OF same_nav_on_toggle_search_action])

lemma nav_ok_step: "nav_ok s w \<Longrightarrow> nav_ok s (step w e)"
proof (cases e)
  case (SearchChanged x)
  assume "nav_ok s w"
  then show ?thesis using SearchChanged nav_ok_same [OF same_nav_search_changed] by simp
next
  case SetLibraryChild
  assume "nav_ok s w"
  then show ?thesis using SetLibraryChild nav_ok_same [OF same_nav_set_library_child] by simp
next
  case (FilterFunc x)
  assume "nav_ok s w"
  then show ?thesis using FilterFunc nav_ok_same [OF same_nav_filter_func] by simp
next
  case (SetActiveGame x)
  assume "nav_ok s w"
  then show ?thesis using SetActiveGame nav_ok_same [OF same_nav_set_active_game] by simp
next
  case (ShowDetailsView x)
  assume "nav_ok s w"
  then show ?thesis using ShowDetailsView nav_ok_show_details_view by simp
next
  case (Navigate x)
  assume "nav_ok s w"
  then show ?thesis using Navigate nav_ok_navigate by simp
next
  case GoBack
  assume "nav_ok s w"
  then show ?thesis using GoBack nav_ok_on_go_back_action by simp
next
  case GoToParent
  assume "nav_ok s w"
  then show ?thesis using GoToParent nav_ok_on_go_to_parent_action by simp
next
  case GoHome
  assume "nav_ok s w"
  then show ?thesis using GoHome nav_ok_navigate by (simp add: on_go_home_action_def)
next
  case ShowHidden
  assume "nav_ok s w"
  then show ?thesis using ShowHidden nav_ok_navigate by (simp add: on_show_hidden_action_def)
next
  case (SortAction x)
  assume "nav_ok s w"
  then show ?thesis using SortAction nav_ok_same [OF same_nav_on_sort_action] by simp
next
  case ToggleSearch
  assume "nav_ok s w"
  then show ?thesis using ToggleSearch nav_ok_same [OF same_nav_on_toggle_search_action] by simp
next
  case Escape
  assume "nav_ok s w"
  then show ?thesis using Escape nav_ok_on_escape_action by simp
next
  case (ShowDetailsViewSearch x)
  assume "nav_ok s w"
  then show ?thesis
    using ShowDetailsViewSearch nav_ok_show_details_view_search_loop
    by (simp add: show_details_view_search_def)
next
  case (Undo x y)
  assume "nav_ok s w"
  then show ?thesis using Undo nav_ok_same [OF same_nav_on_undo_action] by simp
next
  case OpenMenu
  assume "nav_ok s w"
  then show ?thesis using OpenMenu nav_ok_same [OF same_nav_on_open_menu_action] by simp
next
  case CloseWindow
  assume "nav_ok s w"
  then show ?thesis using CloseWindow nav_ok_same [OF same_nav_on_close_action] by simp
next
  case (Environment x)
  assume "nav_ok s w"
  then show ?thesis using Environment nav_ok_same [OF same_nav_environment] by simp
qed

lemma nav_init_window:
  "visible_child (init_window games) = LibraryView"
  "previous_page (init_window games) = LibraryView"
  by (simp_all add: init_window_def set_library_child_def case_prod_beta)

lemma nav_ok_init_window: "nav_ok s (init_window games)"
  by (simp add: nav_ok_def nav_init_window)

lemma reachable_nav_ok: "reachable w \<Longrightarrow> nav_ok s w"
  by (induction rule: reachable.induct) (simp_all add: nav_ok_init_window nav_ok_step)

text \<open>
  Claim C8. \<^verbatim>\<open>previous_page\<close> is the library page after \<^verbatim>\<open>__init__\<close>, every operation
  takes a state in which it is one of the two library pages to such a state, and so it is
  one of the two library pages, never the details page, in every reachable state.
\<close>

theorem previous_page_library_page:
  "previous_page (init_window games) = LibraryView \<and>
   (previous_page w \<in> {LibraryView, HiddenLibraryView} \<longrightarrow>
      previous_page (step w e) \<in> {LibraryView, HiddenLibraryView}) \<and>
   (reachable w \<longrightarrow> previous_page w \<in> {LibraryView, HiddenLibraryView})"
proof -
  have pages: "\<And>p. p \<in> {LibraryView, HiddenLibraryView} \<longleftrightarrow> p \<noteq> DetailsView"
    by (case_tac p) simp_all
  have a: "previous_page w \<noteq> DetailsView \<Longrightarrow> previous_page (step w e) \<noteq> DetailsView"
    using nav_ok_step [of False w e] by (simp add: nav_ok_def)
  have b: "reachable w \<Longrightarrow> previous_page w \<noteq> DetailsView"
    using reachable_nav_ok [of w False] by (simp add: nav_ok_def)
  show ?thesis
    unfolding pages using a b nav_init_window(2) by blast
qed

theorem previous_page_library_page_witness:
  "previous_page (step (init_window example_store) ShowHidden)
     \<in> {LibraryView, HiddenLibraryView} \<and>
   previous_page (step (step (init_window example_store) ShowHidden) (ShowDetailsView 1))
     \<in> {LibraryView, HiddenLibraryView}"
proof -
  have h1: "previous_page (init_window example_store) \<in> {LibraryView, HiddenLibraryView}"
    by code_simp
  have h2: "reachable (step (step (init_window example_store) ShowHidden) (ShowDetailsView 1))"
    by (intro reachable_step reachable_init)
  show ?thesis
    using h1 h2
      previous_page_library_page [where w = "init_window example_store" and e = ShowHidden]
      previous_page_library_page
        [where w = "step (step (init_window example_store) ShowHidden) (ShowDetailsView 1)"]
    by blast
qed

text \<open>
  Claim C5. In every reachable state that shows the details page, going back and going to
  the parent both land on \<^verbatim>\<open>previous_page\<close>, which is a library page; and from every
  reachable state that shows the hidden library, opening the details of a game and then
  going back (or to the parent) lands on the hidden library again.
\<close>

theorem details_back_to_previous_page:
  "(reachable w \<and> visible_child w = DetailsView \<longrightarrow>
      visible_child (on_go_back_action w) = previous_page w \<and>
      visible_child (on_go_to_parent_action w) = previous_page w \<and>
      previous_page w \<noteq> DetailsView) \<and>
   (reachable w \<and> visible_child w = HiddenLibraryView \<longrightarrow>
      visible_child (show_details_view w g) = DetailsView \<and>
      visible_child (on_go_back_action (show_details_view w g)) = HiddenLibraryView \<and>
      visible_child (on_go_to_parent_action (show_details_view w g)) = HiddenLibraryView)"
proof -
  have a: "reachable w \<Longrightarrow> visible_child w = DetailsView \<Longrightarrow>
      visible_child (on_go_back_action w) = previous_page w \<and>
      visible_child (on_go_to_parent_action w) = previous_page w \<and>
      previous_page w \<noteq> DetailsView"
    using reachable_nav_ok [of w False]
    by (cases "previous_page w")
       (simp_all add: nav_ok_def on_go_back_action_def on_go_to_parent_action_def nav_navigate)
  have b: "reachable w \<Longrightarrow> visible_child w = HiddenLibraryView \<Longrightarrow>
      visible_child (show_details_view w g) = DetailsView \<and>
      visible_child (on_go_back_action (show_details_view w g)) = HiddenLibraryView \<and>
      visible_child (on_go_to_parent_action (show_details_view w g)) = HiddenLibraryView"
  proof -
    assume r: "reachable w" and v: "visible_child w = HiddenLibraryView"
    have p: "previous_page w = HiddenLibraryView"
      using reachable_nav_ok [OF r, of True] v by (simp add: nav_ok_def)
    have d: "visible_child (show_details_view w g) = DetailsView"
      using v by (simp add: show_details_view_def Let_def set_focus_def nav_navigate)
    have q: "previous_page (show_details_view w g) = HiddenLibraryView"
      using p by (simp add: nav_show_details_view(2))
    show ?thesis
      using d q by (simp add: on_go_back_action_def on_go_to_parent_action_def nav_navigate)
  qed
  show ?thesis using a b by blast
qed

theorem details_back_to_previous_page_witness:
  "visible_child (on_go_back_action
      (step (step (init_window example_store) ShowHidden) (ShowDetailsView 1)))
     = previous_page (step (step (init_window example_store) ShowHidden) (ShowDetailsView 1)) \<and>
   visible_child (on_go_back_action
      (show_details_view (step (init_window example_store) ShowHidden) 1)) = HiddenLibraryView"
proof -
  have r1: "reachable (step (step (init_window example_store) ShowHidden) (ShowDetailsView 1))"
    by (intro reachable_step reachable_init)
  have r2: "reachable (step (init_window example_store) ShowHidden)"
    by (intro reachable_step reachable_init)
  have v1: "visible_child (step (step (init_window example_store) ShowHidden) (ShowDetailsView 1))
              = DetailsView"
    by code_simp
  have v2: "visible_child (step (init_window example_store) ShowHidden) = HiddenLibraryView"
    by code_simp
  show ?thesis
    using r1 r2 v1 v2
      details_back_to_previous_page
        [where w = "step (step (init_window example_store) ShowHidden) (ShowDetailsView 1)"]
      details_back_to_previous_page
        [where w = "step (init_window example_store) ShowHidden" and g = 1]
    by blast
qed

section \<open>Escape, undo and the sort action\<close>

text \<open>
  Claim C6 fails where no widget holds the focus: \<^verbatim>\<open>get_focus()\<close> and
  \<^verbatim>\<open>search_entry.get_focus_child()\<close> are then both \<^verbatim>\<open>None\<close>, the comparison is true, and
  the escape action toggles the search instead of going back. In the state reached from
  the initial one by showing the hidden library, with no focus and the search closed, it
  opens the hidden search bar and stays on the page, where going back would lead to the
  library.
\<close>

theorem on_escape_action_without_focus:
  "reachable (step (init_window example_store) ShowHidden) \<and>
   focus (step (init_window example_store) ShowHidden) = None \<and>
   visible_child (step (init_window example_store) ShowHidden) = HiddenLibraryView \<and>
   on_escape_action (step (init_window example_store) ShowHidden)
     = on_toggle_search_action (step (init_window example_store) ShowHidden) \<and>
   visible_child (on_escape_action (step (init_window example_store) ShowHidden))
     = HiddenLibraryView \<and>
   hidden_search_mode (on_escape_action (step (init_window example_store) ShowHidden)) \<and>
   visible_child (on_go_back_action (step (init_window example_store) ShowHidden)) = LibraryView"
proof -
  have r: "reachable (step (init_window example_store) ShowHidden)"
    by (intro reachable_step reachable_init)
  have e: "focus (step (init_window example_store) ShowHidden) = None \<and>
     visible_child (step (init_window example_store) ShowHidden) = HiddenLibraryView \<and>
     on_escape_action (step (init_window example_store) ShowHidden)
       = on_toggle_search_action (step (init_window example_store) ShowHidden) \<and>
     visible_child (on_escape_action (step (init_window example_store) ShowHidden))
       = HiddenLibraryView \<and>
     hidden_search_mode (on_escape_action (step (init_window example_store) ShowHidden)) \<and>
     visible_child (on_go_back_action (step (init_window example_store) ShowHidden)) = LibraryView"
    by code_simp
  show ?thesis using r e by (rule conjI)
qed

lemma escape_condition_focused:
  "focus w \<noteq> None \<Longrightarrow>
     escape_condition w \<longleftrightarrow>
       focus w = Some SearchEntryText \<or> focus w = Some HiddenSearchEntryText"
  by (auto simp: escape_condition_def get_focus_child_def)

lemma escape_condition_no_focus: "focus w = None \<Longrightarrow> escape_condition w"
  by (simp add: escape_condition_def get_focus_child_def)

lemma undo_game_missing:
  assumes "(g, undo) \<notin> fst ` set (toasts w)"
  shows "undo_game w g undo =
     ((if undo = Some ''hide''
         then w\<lparr>store := (store w)[g := toggle_hidden False (store w ! g)]\<rparr>
       else if undo = Some ''remove''
         then w\<lparr>store := (store w)[g := (store w ! g)\<lparr>removed := False\<rparr>],
                effects := GameUpdate g # GameSave g # effects w\<rparr>
       else w), Some KeyError)"
proof -
  have "map_of (toasts w) (g, undo) = None"
    using assms by (simp add: map_of_eq_None_iff)
  then show ?thesis by (auto simp: undo_game_def Let_def)
qed

lemma on_undo_action_Some: "on_undo_action w (Some g) undo = undo_game w g undo"
  by (simp add: on_undo_action_def)

lemma on_undo_action_empty:
  "\<not> importer_pending w \<Longrightarrow> toasts w = [] \<Longrightarrow> on_undo_action w None undo = (w, None)"
  by (simp add: on_undo_action_def)

lemma on_undo_action_missing_key:
  assumes "(g, undo) \<notin> fst ` set (toasts w)"
  shows "snd (on_undo_action w (Some g) undo) = Some KeyError \<and>
         toasts (fst (on_undo_action w (Some g) undo)) = toasts w"
  by (simp add: on_undo_action_Some undo_game_missing [OF assms])

text \<open>
  Claim C7 fails on the path with an explicit key. With the undo toast of a hidden game
  pending, the first undo for its key unhides the game and removes the entry from the
  registry, raising nothing. The second undo for the same key looks the key up in the
  registry without testing for it and ends in \<^verbatim>\<open>KeyError\<close>, where the claim asks for a
  silent no-op. The global undo in the same state, with the registry empty and no
  importer batch pending, does return silently with the state unchanged.
\<close>

theorem on_undo_action_repeated_undo:
  "snd (on_undo_action undo_window (Some 1) (Some ''hide'')) = None \<and>
   toasts (fst (on_undo_action undo_window (Some 1) (Some ''hide''))) = [] \<and>
   \<not> hidden (store (fst (on_undo_action undo_window (Some 1) (Some ''hide''))) ! 1) \<and>
   snd (on_undo_action (fst (on_undo_action undo_window (Some 1) (Some ''hide'')))
          (Some 1) (Some ''hide'')) = Some KeyError \<and>
   on_undo_action (fst (on_undo_action undo_window (Some 1) (Some ''hide''))) None None
     = (fst (on_undo_action undo_window (Some 1) (Some ''hide'')), None)"
proof -
  let ?w1 = "fst (on_undo_action undo_window (Some 1) (Some ''hide''))"
  have a: "snd (on_undo_action undo_window (Some 1) (Some ''hide'')) = None \<and>
           toasts ?w1 = [] \<and> \<not> hidden (store ?w1 ! 1) \<and> \<not> importer_pending ?w1"
    by code_simp
  have b: "snd (on_undo_action ?w1 (Some 1) (Some ''hide'')) = Some KeyError"
    using a on_undo_action_missing_key [of 1 "Some ''hide''" ?w1] by simp
  have c: "on_undo_action ?w1 None None = (?w1, None)"
    using a on_undo_action_empty [of ?w1 None] by simp
  show ?thesis using a b c by simp
qed

lemma set_insert_by [simp]: "set (insert_by cmp x ys) = insert x (set ys)"
  by (induction ys) auto

lemma sorted_insert_by:
  assumes tr: "\<And>x y z. may_precede cmp x y \<Longrightarrow> may_precede cmp y z \<Longrightarrow> may_precede cmp x z"
  shows "sorted_wrt (may_precede cmp) ys \<Longrightarrow> sorted_wrt (may_precede cmp) (insert_by cmp x ys)"
proof (induction ys)
  case Nil
  show ?case by simp
next
  case (Cons y ys)
  show ?case
  proof (cases "cmp x y \<le> 0")
    case True
    then have xy: "may_precede cmp x y" by (simp add: may_precede_def)
    have "\<forall>z\<in>set ys. may_precede cmp x z"
      using Cons.prems xy tr by auto
    then show ?thesis using True xy Cons.prems by simp
  next
    case False
    then have yx: "may_precede cmp y x" by (simp add: may_precede_def)
    show ?thesis using False yx Cons by simp
  qed
qed

lemma sorted_sort_by:
  assumes tr: "\<And>x y z. may_precede cmp x y \<Longrightarrow> may_precede cmp y z \<Longrightarrow> may_precede cmp x z"
  shows "sorted_wrt (may_precede cmp) (sort_by cmp xs)"
proof (induction xs)
  case Nil
  show ?case by (simp add: sort_by_def)
next
  case (Cons x xs)
  have "sort_by cmp (x # xs) = insert_by cmp x (sort_by cmp xs)"
    by (simp add: sort_by_def)
  then show ?case using sorted_insert_by [OF tr Cons.IH] by simp
qed

lemma may_precede_child_sort_func_trans:
  "may_precede (child_sort_func w) x y \<Longrightarrow> may_precede (child_sort_func w) y z \<Longrightarrow>
     may_precede (child_sort_func w) x z"
  using may_precede_sort_func_trans [of "sort_state w" "store w ! x" "store w ! y" "store w ! z"]
  by (simp add: may_precede_def child_sort_func_def)

lemma strip_quoted:
  assumes "c \<notin> set m"
  shows "strip [c] ([c] @ m @ [c]) = m"
proof (cases m)
  case Nil
  then show ?thesis by (simp add: strip_def)
next
  case (Cons a as)
  have a: "a \<noteq> c" using assms Cons by auto
  have l: "last m \<noteq> c" using assms Cons last_in_set [of m] by auto
  have "rev m = last m # rev (butlast m)"
    using Cons by (metis append_butlast_last_id list.distinct(1) rev.simps(2) rev_append rev_rev_ident rev_singleton_conv)
  then show ?thesis using a l Cons by (simp add: strip_def)
qed

lemma insert_by_mset: "mset (insert_by cmp x ys) = add_mset x (mset ys)"
  by (induction ys) simp_all

lemma sort_by_mset: "mset (sort_by cmp xs) = mset xs"
  by (induction xs) (simp_all add: sort_by_def insert_by_mset)

lemma child_sort_func_cong:
  "sort_state w' = sort_state w \<Longrightarrow> store w' = store w \<Longrightarrow> child_sort_func w' = child_sort_func w"
  by (simp add: child_sort_func_def fun_eq_iff)

text \<open>
  Claim C10. Choosing a sort mode sets \<^verbatim>\<open>sort_state\<close>, which the comparator of both
  lists reads, to the text of the chosen state without its quotes, and stores it in the
  settings. The children of the library list end up ordered by the comparator for the
  new mode (no child stands before one that the comparator puts before it in both
  directions) and are a permutation of what they were. The children of the hidden library
  list and the games are left as they are.
\<close>

theorem on_sort_action_sorts_library_only:
  "(CHR 0x27 \<notin> set m \<longrightarrow> sort_state (on_sort_action w ([CHR 0x27] @ m @ [CHR 0x27])) = m) \<and>
   sort_state (on_sort_action w t) = strip [CHR 0x27] t \<and>
   sort_mode_setting (on_sort_action w t) = sort_state (on_sort_action w t) \<and>
   sorted_wrt
     (\<lambda>x y. \<not> (child_sort_func (on_sort_action w t) y x < 0 \<and>
                0 < child_sort_func (on_sort_action w t) x y))
     (library_children (on_sort_action w t)) \<and>
   mset (library_children (on_sort_action w t)) = mset (library_children w) \<and>
   hidden_library_children (on_sort_action w t) = hidden_library_children w \<and>
   store (on_sort_action w t) = store w"
proof -
  let ?w2 = "w\<lparr>sort_action_state := t, sort_state := strip [CHR 0x27] t\<rparr>"
  have st: "\<And>u. sort_state (on_sort_action w u) = strip [CHR 0x27] u"
    by (simp add: on_sort_action_def Let_def)
  have q: "sort_state (on_sort_action w ([CHR 0x27] @ m @ [CHR 0x27])) = m"
    if "CHR 0x27 \<notin> set m"
    unfolding st by (rule strip_quoted [OF that])
  have c: "child_sort_func (on_sort_action w t) = child_sort_func ?w2"
    by (rule child_sort_func_cong) (simp_all add: on_sort_action_def Let_def)
  have l: "library_children (on_sort_action w t) = sort_by (child_sort_func ?w2) (library_children w)"
    by (simp add: on_sort_action_def Let_def)
  have "sorted_wrt (may_precede (child_sort_func ?w2))
          (sort_by (child_sort_func ?w2) (library_children w))"
    by (rule sorted_sort_by) (rule may_precede_child_sort_func_trans)
  then have s: "sorted_wrt
     (\<lambda>x y. \<not> (child_sort_func (on_sort_action w t) y x < 0 \<and>
                0 < child_sort_func (on_sort_action w t) x y))
     (library_children (on_sort_action w t))"
    by (simp only: c l may_precede_def [abs_def])
  have m: "mset (library_children (on_sort_action w t)) = mset (library_children w)"
    by (simp only: l sort_by_mset)
  have r: "sort_mode_setting (on_sort_action w t) = sort_state (on_sort_action w t) \<and>
           hidden_library_children (on_sort_action w t) = hidden_library_children w \<and>
           store (on_sort_action w t) = store w"
    by (simp add: on_sort_action_def Let_def)
  show ?thesis using q st [of t] s m r by blast
qed

theorem on_sort_action_sorts_library_only_witness:
  "sort_state (on_sort_action sort_window ([CHR 0x27] @ ''newest'' @ [CHR 0x27])) = ''newest'' \<and>
   library_children (on_sort_action sort_window ([CHR 0x27] @ ''newest'' @ [CHR 0x27])) = [1, 0] \<and>
   hidden_library_children (on_sort_action sort_window ([CHR 0x27] @ ''newest'' @ [CHR 0x27]))
     = [2, 3] \<and>
   sort_by (child_sort_func (on_sort_action sort_window ([CHR 0x27] @ ''newest'' @ [CHR 0x27])))
     [2, 3] = [3, 2]"
proof -
  have h: "CHR 0x27 \<notin> set ''newest''"
    by simp
  have e: "library_children (on_sort_action sort_window ([CHR 0x27] @ ''newest'' @ [CHR 0x27]))
             = [1, 0] \<and>
           hidden_library_children sort_window = [2, 3] \<and>
           sort_by (child_sort_func
             (on_sort_action sort_window ([CHR 0x27] @ ''newest'' @ [CHR 0x27]))) [2, 3] = [3, 2]"
    by code_simp
  show ?thesis
    using h e
      on_sort_action_sorts_library_only [where w = sort_window and m = "''newest''"
        and t = "[CHR 0x27] @ ''newest'' @ [CHR 0x27]"]
    by simp
qed

end
